theory Spec2Isabelle
  imports Main "HOL-Library.Sublist"
begin

section \<open>Data model (src/types/index.ts and the state of the App component)\<close>

text \<open>
  \<^verbatim>\<open>NewsSection\<close> is a union of seven string literals. It is a datatype here, with
  \<open>section_str\<close> giving back the literal, because the source compares a section with the free-form
  \<^verbatim>\<open>section: string\<close> tag of an item and splices it into the timestamp key.
\<close>

datatype NewsSection = ForYou | World | Sports | India | Education | Entertainment | Trending

fun section_str :: "NewsSection \<Rightarrow> string" where
  "section_str ForYou = ''for-you''"
| "section_str World = ''world''"
| "section_str Sports = ''sports''"
| "section_str India = ''india''"
| "section_str Education = ''education''"
| "section_str Entertainment = ''entertainment''"
| "section_str Trending = ''trending''"

text \<open>
  A \<^verbatim>\<open>NewsItem\<close>. Only the fields that the feed logic reads or that identify an item are kept
  (\<^verbatim>\<open>id\<close>, \<^verbatim>\<open>headline\<close>, \<^verbatim>\<open>section\<close>); the display fields (bullet points, image and
  icon URLs, source, type, timestamps, probability) are not read by any function modelled below.
\<close>

record NewsItem =
  item_id :: string
  headline :: string
  item_section :: string

text \<open>
  The \<^verbatim>\<open>useState\<close> cells of \<^verbatim>\<open>App\<close> that the feed logic reads or writes.
  \<^verbatim>\<open>lastFetchTime\<close> is a \<^verbatim>\<open>Record<string, number>\<close>: a map from key strings to times.
  Times are \<^verbatim>\<open>Date.now()\<close> readings (milliseconds), pages are the numbers \<open>1, 2, \<dots>\<close>.
\<close>

record app_state =
  userId :: "string option"
  activeSection :: NewsSection
  news :: "NewsItem list"
  isLoadingNews :: bool
  isLoadingMore :: bool
  error :: "string option"
  hasMoreNews :: bool
  currentPage :: nat
  lastFetchTime :: "string \<rightharpoonup> int"

definition initial_state :: "string option \<Rightarrow> app_state" where
  "initial_state uid =
     \<lparr>userId = uid, activeSection = World, news = [], isLoadingNews = False,
      isLoadingMore = False, error = None, hasMoreNews = True, currentPage = 1,
      lastFetchTime = Map.empty\<rparr>"

subsection \<open>The fallback data set\<close>

definition mockNews :: "NewsItem list" where
  "mockNews =
     [\<lparr>item_id = ''1'',
       headline = ''Global Climate Summit Reaches Historic Agreement on Carbon Reduction'',
       item_section = ''world''\<rparr>,
      \<lparr>item_id = ''2'',
       headline = ''Revolutionary AI Breakthrough in Medical Diagnosis Announced'',
       item_section = ''for-you''\<rparr>]"

subsection \<open>Strings of the source\<close>

text \<open>Decimal printing of a page number, as the template literal does.\<close>

definition digit :: "nat \<Rightarrow> char" where
  "digit d = ''0123456789'' ! d"

function show_nat :: "nat \<Rightarrow> string" where
  "show_nat n = (if n < 10 then [digit n] else show_nat (n div 10) @ [digit (n mod 10)])"
  by pat_completeness auto
termination
  by (relation "measure id") auto

text \<open>The key \<^verbatim>\<open>`${section}_${page}`\<close> of \<^verbatim>\<open>lastFetchTime\<close>.\<close>

definition fetch_key :: "NewsSection \<Rightarrow> nat \<Rightarrow> string" where
  "fetch_key sec page = section_str sec @ ''_'' @ show_nat page"

definition startsWith :: "string \<Rightarrow> string \<Rightarrow> bool" where
  "startsWith str pre = (take (length pre) str = pre)"

text \<open>\<^verbatim>\<open>userId?.startsWith('guest_')\<close>: undefined, hence falsy, when \<^verbatim>\<open>userId\<close> is null.\<close>

definition is_guest :: "string option \<Rightarrow> bool" where
  "is_guest uid = (case uid of None \<Rightarrow> False | Some u \<Rightarrow> startsWith u ''guest_'')"

text \<open>Truthiness of \<^verbatim>\<open>userId\<close>: null and the empty string are falsy.\<close>

definition truthy_id :: "string option \<Rightarrow> bool" where
  "truthy_id uid = (case uid of None \<Rightarrow> False | Some u \<Rightarrow> u \<noteq> [])"

text \<open>
  The advisory shown to a guest on the personalized feed. The source's message starts with the
  character U+1F6AB, given here by its four UTF-8 bytes.
\<close>

definition guest_msg :: string where
  \<open>guest_msg =
     [CHR 0xF0, CHR 0x9F, CHR 0x9A, CHR 0xAB] @
     '' Sign in with Google to access personalized '' @ [CHR 0x22] @ ''For You'' @ [CHR 0x22] @
     '' news.''\<close>

definition fail_msg :: string where
  "fail_msg = ''Failed to load news. Showing fallback content.''"

section \<open>fetchNews, split at its await\<close>

text \<open>
  The three network calls \<^verbatim>\<open>fetchNews\<close> can make: the raw \<^verbatim>\<open>fetch\<close> of the personalized
  feed (the user id is interpolated as it is, null included), \<^verbatim>\<open>api.fetchUserNews\<close> and
  \<^verbatim>\<open>api.fetchNews\<close>. The page size is the constant 50 in all three.
\<close>

datatype endpoint =
    RawForYou "string option" NewsSection nat
  | ApiFetchUserNews string NewsSection nat
  | ApiFetchNews NewsSection nat

text \<open>
  An invocation of \<^verbatim>\<open>fetchNews\<close> suspended at its \<^verbatim>\<open>await\<close>: its arguments, the \<^verbatim>\<open>now\<close> it
  read before the call, and the call it is waiting for.
\<close>

record pending =
  p_section :: NewsSection
  p_page :: nat
  p_isInitial :: bool
  p_now :: int
  p_call :: endpoint

text \<open>What the awaited call gives back to \<^verbatim>\<open>fetchNews\<close>: a batch, or an exception.\<close>

datatype fetch_result = Resolved "NewsItem list" | Rejected

text \<open>The \<^verbatim>\<open>finally\<close> block (and the same two lines before the early return).\<close>

definition clear_loading :: "bool \<Rightarrow> app_state \<Rightarrow> app_state" where
  "clear_loading isInitial s =
     (if isInitial then s\<lparr>isLoadingNews := False\<rparr> else s\<lparr>isLoadingMore := False\<rparr>)"

definition choose_call :: "app_state \<Rightarrow> NewsSection \<Rightarrow> nat \<Rightarrow> endpoint" where
  "choose_call s sec page =
     (if sec = ForYou then RawForYou (userId s) sec page
      else case userId s of
             None \<Rightarrow> ApiFetchNews sec page
           | Some u \<Rightarrow> if u \<noteq> [] then ApiFetchUserNews u sec page else ApiFetchNews sec page)"

text \<open>
  \<^verbatim>\<open>lastFetch && now - lastFetch < 5000\<close>: a missing entry (undefined) and the number 0 are falsy.
\<close>

definition recently_fetched :: "int option \<Rightarrow> int \<Rightarrow> bool" where
  "recently_fetched lastFetch now =
     (case lastFetch of None \<Rightarrow> False | Some t \<Rightarrow> t \<noteq> 0 \<and> now - t < 5000)"

text \<open>
  \<^verbatim>\<open>fetchNews\<close> from its entry to the first \<^verbatim>\<open>await\<close> or to an early return. The result is
  the state after the synchronous updates and, when a network call was made, the suspended
  invocation. \<open>now\<close> is the reading of \<^verbatim>\<open>Date.now()\<close>.
\<close>

definition fetchNews_begin ::
  "app_state \<Rightarrow> NewsSection \<Rightarrow> nat \<Rightarrow> bool \<Rightarrow> int \<Rightarrow> app_state \<times> pending option" where
  "fetchNews_begin s sec page isInitial now =
     (let s1 = (if isInitial then s\<lparr>isLoadingNews := True\<rparr> else s\<lparr>isLoadingMore := True\<rparr>);
          s2 = s1\<lparr>error := None\<rparr>;
          lastFetch = lastFetchTime s (fetch_key sec page)
      in if \<not> isInitial \<and> recently_fetched lastFetch now then
           (clear_loading isInitial s2, None)
         else if sec = ForYou \<and> is_guest (userId s) then
           (clear_loading isInitial
              (s2\<lparr>news := [], hasMoreNews := False, error := Some guest_msg\<rparr>), None)
         else
           (s2, Some \<lparr>p_section = sec, p_page = page, p_isInitial = isInitial, p_now = now,
                      p_call = choose_call s sec page\<rparr>))"

text \<open>
  The rest of \<^verbatim>\<open>fetchNews\<close>, run when the awaited call settles, on the state of that moment:
  every update after the \<^verbatim>\<open>await\<close> is a setter call, and the two updates that read the old value
  (\<^verbatim>\<open>setNews(prev => \<dots>)\<close>, \<^verbatim>\<open>setLastFetchTime(prev => \<dots>)\<close>) are functional updates.
\<close>

definition fetchNews_resume :: "app_state \<Rightarrow> pending \<Rightarrow> fetch_result \<Rightarrow> app_state" where
  "fetchNews_resume s p r =
     clear_loading (p_isInitial p)
       (case r of
          Resolved newsData \<Rightarrow>
            if newsData = [] then s\<lparr>hasMoreNews := False\<rparr>
            else s\<lparr>news := (if p_isInitial p then newsData else news s @ newsData),
                   currentPage := p_page p,
                   lastFetchTime := (lastFetchTime s)(fetch_key (p_section p) (p_page p) \<mapsto> p_now p)\<rparr>
        | Rejected \<Rightarrow>
            let s1 = s\<lparr>error := Some fail_msg\<rparr>
            in if p_isInitial p then
                 s1\<lparr>news := filter (\<lambda>item. p_section p = ForYou
                                        \<or> item_section item = section_str (p_section p)) mockNews,
                     hasMoreNews := False\<rparr>
               else s1)"

section \<open>The operations of the component\<close>

definition resetAndFetchNews ::
  "app_state \<Rightarrow> NewsSection \<Rightarrow> int \<Rightarrow> app_state \<times> pending option" where
  "resetAndFetchNews s sec now =
     fetchNews_begin (s\<lparr>news := [], currentPage := 1, hasMoreNews := True, error := None\<rparr>)
       sec 1 True now"

definition loadMoreNews :: "app_state \<Rightarrow> int \<Rightarrow> app_state \<times> pending option" where
  "loadMoreNews s now =
     (if \<not> hasMoreNews s \<or> isLoadingMore s \<or> isLoadingNews s then (s, None)
      else fetchNews_begin s (activeSection s) (currentPage s + 1) False now)"

text \<open>
  \<^verbatim>\<open>handleSectionChange\<close> followed by the effect on \<^verbatim>\<open>[activeSection, userId]\<close>: setting the
  section to its current value changes nothing and runs no effect; a new value runs
  \<^verbatim>\<open>resetAndFetchNews\<close> when a user id is present.
\<close>

definition handleSectionChange ::
  "app_state \<Rightarrow> NewsSection \<Rightarrow> int \<Rightarrow> app_state \<times> pending option" where
  "handleSectionChange s sec now =
     (if sec = activeSection s then (s, None)
      else if truthy_id (userId s) then resetAndFetchNews (s\<lparr>activeSection := sec\<rparr>) sec now
      else (s\<lparr>activeSection := sec\<rparr>, None))"

definition handleRefresh :: "app_state \<Rightarrow> int \<Rightarrow> app_state \<times> pending option" where
  "handleRefresh s now = resetAndFetchNews s (activeSection s) now"

subsection \<open>Handlers as closures of a render\<close>

text \<open>
  A handler is a closure of the render that created it: the state variables it reads
  (\<^verbatim>\<open>hasMoreNews\<close>, \<^verbatim>\<open>isLoadingMore\<close>, \<^verbatim>\<open>isLoadingNews\<close>, \<^verbatim>\<open>currentPage\<close>,
  \<^verbatim>\<open>activeSection\<close>, \<^verbatim>\<open>lastFetchTime\<close>, \<^verbatim>\<open>userId\<close>) are constants of that render, and a
  setter call only schedules the next render. In the two definitions below \<open>c\<close> is the state
  of the render the closure belongs to, which every read goes to, and \<open>s\<close> is the state the
  setter calls have produced so far, which every write goes to. With \<open>c = s\<close> they are
  \<open>fetchNews_begin\<close> and \<open>loadMoreNews\<close>: a handler called right after its render was committed.
\<close>

definition fetchNews_in ::
  "app_state \<Rightarrow> app_state \<Rightarrow> NewsSection \<Rightarrow> nat \<Rightarrow> bool \<Rightarrow> int
     \<Rightarrow> app_state \<times> pending option" where
  "fetchNews_in c s sec page isInitial now =
     (let s1 = (if isInitial then s\<lparr>isLoadingNews := True\<rparr> else s\<lparr>isLoadingMore := True\<rparr>);
          s2 = s1\<lparr>error := None\<rparr>;
          lastFetch = lastFetchTime c (fetch_key sec page)
      in if \<not> isInitial \<and> recently_fetched lastFetch now then
           (clear_loading isInitial s2, None)
         else if sec = ForYou \<and> is_guest (userId c) then
           (clear_loading isInitial
              (s2\<lparr>news := [], hasMoreNews := False, error := Some guest_msg\<rparr>), None)
         else
           (s2, Some \<lparr>p_section = sec, p_page = page, p_isInitial = isInitial, p_now = now,
                      p_call = choose_call c sec page\<rparr>))"

definition loadMoreNews_in :: "app_state \<Rightarrow> app_state \<Rightarrow> int \<Rightarrow> app_state \<times> pending option" where
  "loadMoreNews_in c s now =
     (if \<not> hasMoreNews c \<or> isLoadingMore c \<or> isLoadingNews c then (s, None)
      else fetchNews_in c s (activeSection c) (currentPage c + 1) False now)"

subsection \<open>What the UI shows\<close>

definition filteredNews :: "app_state \<Rightarrow> NewsItem list" where
  "filteredNews s =
     filter (\<lambda>item. activeSection s = ForYou \<or> item_section item = section_str (activeSection s))
       (news s)"

text \<open>
  What the main panel renders: the spinner while the first page is loading, the cards of
  \<^verbatim>\<open>filteredNews\<close> when there are any, the "No stories available" panel otherwise.
\<close>

datatype main_view = Spinner | Cards "NewsItem list" | NoStories

definition main_panel :: "app_state \<Rightarrow> main_view" where
  "main_panel s =
     (if isLoadingNews s then Spinner
      else if length (filteredNews s) > 0 then Cards (filteredNews s)
      else NoStories)"

section \<open>The feed fetch client (src/utils/api.ts and the raw call of fetchNews)\<close>

text \<open>
  What the network can answer. A body either fails to parse as JSON (\<open>None\<close>) or parses to an
  array of items or to an object, of which \<^verbatim>\<open>handleResponse\<close> reads \<^verbatim>\<open>detail\<close> (a list of
  validation errors, each with a \<^verbatim>\<open>msg\<close>, or a text) and \<^verbatim>\<open>message\<close>.
\<close>

datatype detail = DetailList "string list" | DetailText string

datatype json = JsonItems "NewsItem list" | JsonObject "detail option" "string option"

record http_response =
  ok :: bool
  status :: nat
  statusText :: string
  body :: "json option"

datatype net_reply = NetworkError | Reply http_response

text \<open>
  The exceptions of the client: the \<^verbatim>\<open>TypeError\<close> of a \<^verbatim>\<open>fetch\<close> that cannot reach the server,
  the \<^verbatim>\<open>SyntaxError\<close> of \<^verbatim>\<open>response.json()\<close>, and the \<^verbatim>\<open>Error\<close> that \<^verbatim>\<open>handleResponse\<close>
  throws, with its message.
\<close>

datatype fetch_error = FetchTypeError | JsonSyntaxError | HttpError string

fun join_comma :: "string list \<Rightarrow> string" where
  "join_comma [] = []"
| "join_comma [m] = m"
| "join_comma (m # ms) = m @ '', '' @ join_comma ms"

definition error_message :: "http_response \<Rightarrow> string" where
  "error_message r =
     (let errorMessage = ''HTTP '' @ show_nat (status r) @ '': '' @ statusText r;
          from_message = (\<lambda>m. case m of
                                 None \<Rightarrow> errorMessage
                               | Some t \<Rightarrow> if t \<noteq> [] then t else errorMessage)
      in case body r of
           None \<Rightarrow> errorMessage
         | Some (JsonItems xs) \<Rightarrow> errorMessage
         | Some (JsonObject d m) \<Rightarrow>
             (case d of
                Some (DetailList errs) \<Rightarrow> join_comma errs
              | Some (DetailText t) \<Rightarrow> if t \<noteq> [] then t else from_message m
              | None \<Rightarrow> from_message m))"

definition handleResponse :: "http_response \<Rightarrow> fetch_error + json" where
  "handleResponse r =
     (if \<not> ok r then Inl (HttpError (error_message r))
      else case body r of None \<Rightarrow> Inl JsonSyntaxError | Some j \<Rightarrow> Inr j)"

text \<open>
  The awaited expression of \<^verbatim>\<open>fetchNews\<close> for each call. The raw call of the personalized feed is
  \<^verbatim>\<open>await fetch(\<dots>)\<close> followed by \<^verbatim>\<open>await response.json()\<close>; the two \<^verbatim>\<open>api\<close> functions pass
  the response to \<^verbatim>\<open>handleResponse\<close>.
\<close>

fun perform :: "endpoint \<Rightarrow> net_reply \<Rightarrow> fetch_error + json" where
  "perform c NetworkError = Inl FetchTypeError"
| "perform (RawForYou uid sec page) (Reply r) =
     (case body r of None \<Rightarrow> Inl JsonSyntaxError | Some j \<Rightarrow> Inr j)"
| "perform (ApiFetchUserNews uid sec page) (Reply r) = handleResponse r"
| "perform (ApiFetchNews sec page) (Reply r) = handleResponse r"

text \<open>
  \<^verbatim>\<open>newsData\<close> is declared \<^verbatim>\<open>NewsItem[]\<close> and nothing checks it at run time. An array is the
  batch; an exception takes the \<^verbatim>\<open>catch\<close> branch; a JSON object is outside the declared type and
  the model does not follow the execution further (\<open>None\<close>).
\<close>

fun as_result :: "fetch_error + json \<Rightarrow> fetch_result option" where
  "as_result (Inl e) = Some Rejected"
| "as_result (Inr (JsonItems xs)) = Some (Resolved xs)"
| "as_result (Inr (JsonObject d m)) = None"

definition fetchNews_settle :: "app_state \<Rightarrow> pending \<Rightarrow> net_reply \<Rightarrow> app_state option" where
  "fetchNews_settle s p reply =
     map_option (fetchNews_resume s p) (as_result (perform (p_call p) reply))"

section \<open>The component as an event system\<close>

text \<open>
  The component together with the invocations of \<^verbatim>\<open>fetchNews\<close> that are suspended at their
  \<^verbatim>\<open>await\<close> and the log of the network calls made so far. Every handler runs on the state as the
  last render committed it: the event loop is single-threaded and React re-renders between two
  events, so the values a handler closes over are those of the state it starts from. This
  holds for the memoised \<^verbatim>\<open>loadMoreNews\<close> too: \<^verbatim>\<open>lastFetchTime\<close> is not among its dependencies,
  but the entry it reads, for the page after \<^verbatim>\<open>currentPage\<close>, is only written together with
  \<^verbatim>\<open>currentPage\<close> and a loading flag, which are. Two calls of one handler closure before the
  next render are not events of this system; \<open>loadMoreNews_in\<close> describes them.
\<close>

record sys =
  st :: app_state
  inflight :: "pending list"
  netlog :: "endpoint list"

datatype event =
    SectionChange NewsSection int
  | Refresh int
  | LoadMore int
  | Complete nat fetch_result

definition issue :: "sys \<Rightarrow> app_state \<times> pending option \<Rightarrow> sys" where
  "issue w r =
     (case r of
        (s, None) \<Rightarrow> w\<lparr>st := s\<rparr>
      | (s, Some p) \<Rightarrow> w\<lparr>st := s, inflight := inflight w @ [p], netlog := netlog w @ [p_call p]\<rparr>)"

text \<open>
  \<open>Complete i r\<close> settles the \<open>i\<close>-th suspended invocation with \<open>r\<close>; the order in which
  suspended invocations settle is up to the network.
\<close>

fun step :: "sys \<Rightarrow> event \<Rightarrow> sys" where
  "step w (SectionChange sec now) = issue w (handleSectionChange (st w) sec now)"
| "step w (Refresh now) = issue w (handleRefresh (st w) now)"
| "step w (LoadMore now) = issue w (loadMoreNews (st w) now)"
| "step w (Complete i r) =
     (if i < length (inflight w)
      then w\<lparr>st := fetchNews_resume (st w) (inflight w ! i) r,
             inflight := take i (inflight w) @ drop (Suc i) (inflight w)\<rparr>
      else w)"

definition run :: "sys \<Rightarrow> event list \<Rightarrow> sys" where
  "run w es = foldl step w es"

definition start :: "app_state \<Rightarrow> sys" where
  "start s = \<lparr>st = s, inflight = [], netlog = []\<rparr>"

section \<open>Observations and sample data\<close>

text \<open>The pagination state as the UI observes it: items, cursor, exhausted, the two loading
  flags and the last error.\<close>

definition pagination ::
  "app_state \<Rightarrow> NewsItem list \<times> nat \<times> bool \<times> bool \<times> bool \<times> string option" where
  "pagination s =
     (news s, currentPage s, \<not> hasMoreNews s, isLoadingNews s, isLoadingMore s, error s)"

text \<open>The events that run \<^verbatim>\<open>resetAndFetchNews\<close>.\<close>

fun is_reset :: "event \<Rightarrow> bool" where
  "is_reset (SectionChange sec now) = True"
| "is_reset (Refresh now) = True"
| "is_reset (LoadMore now) = False"
| "is_reset (Complete i r) = False"

text \<open>The suspended load-more invocations.\<close>

definition more_inflight :: "sys \<Rightarrow> pending list" where
  "more_inflight w = filter (\<lambda>p. \<not> p_isInitial p) (inflight w)"

definition item_w1 :: NewsItem where
  "item_w1 = \<lparr>item_id = ''w1'', headline = ''World one'', item_section = ''world''\<rparr>"

definition item_w2 :: NewsItem where
  "item_w2 = \<lparr>item_id = ''w2'', headline = ''World two'', item_section = ''world''\<rparr>"

definition item_s1 :: NewsItem where
  "item_s1 = \<lparr>item_id = ''s1'', headline = ''Sports one'', item_section = ''sports''\<rparr>"

text \<open>A signed-in user and a guest, both on the initial state of the component.\<close>

definition user_state :: app_state where
  "user_state = initial_state (Some ''user_1'')"

definition guest_state :: app_state where
  "guest_state = initial_state (Some ''guest_1700000000000'')"

text \<open>The state after a first page of the world feed has been loaded at time 1000.\<close>

definition world_loaded :: app_state where
  "world_loaded =
     user_state\<lparr>news := [item_w1], lastFetchTime := [''world_1'' \<mapsto> 1000]\<rparr>"

definition server_error :: http_response where
  "server_error =
     \<lparr>ok = False, status = 500, statusText = ''Internal Server Error'',
      body = Some (JsonItems [item_w1])\<rparr>"

text \<open>
  \<^verbatim>\<open>resetAndFetchNews\<close> run to completion against a fetch that answers \<open>r\<close>: the state when
  the operation has returned, whether or not it reached the network.
\<close>

definition resetAndFetchNews_stubbed ::
  "app_state \<Rightarrow> NewsSection \<Rightarrow> int \<Rightarrow> fetch_result \<Rightarrow> app_state" where
  "resetAndFetchNews_stubbed s sec now r =
     (case resetAndFetchNews s sec now of
        (s1, None) \<Rightarrow> s1
      | (s1, Some p) \<Rightarrow> fetchNews_resume s1 p r)"

text \<open>
  The flag \<^verbatim>\<open>isLoadingMore\<close> accounts for the suspended load-more invocations: there is none,
  or there is exactly one and the flag is set.
\<close>

definition more_guarded :: "sys \<Rightarrow> bool" where
  "more_guarded w =
     (more_inflight w = [] \<or> (isLoadingMore (st w) \<and> length (more_inflight w) = 1))"

section \<open>Basic facts about the two halves of fetchNews\<close>

lemma clear_loading_fields [simp]:
  "news (clear_loading b s) = news s"
  "currentPage (clear_loading b s) = currentPage s"
  "hasMoreNews (clear_loading b s) = hasMoreNews s"
  "error (clear_loading b s) = error s"
  "userId (clear_loading b s) = userId s"
  "activeSection (clear_loading b s) = activeSection s"
  "lastFetchTime (clear_loading b s) = lastFetchTime s"
  "isLoadingNews (clear_loading b s) = (\<not> b \<and> isLoadingNews s)"
  "isLoadingMore (clear_loading b s) = (b \<and> isLoadingMore s)"
  by (simp_all add: clear_loading_def)

text \<open>What is known when \<^verbatim>\<open>fetchNews\<close> has reached its network call.\<close>

lemma fetchNews_begin_issued:
  assumes "fetchNews_begin s sec page isInitial now = (s1, Some p)"
  shows "s1 = (if isInitial then s\<lparr>isLoadingNews := True, error := None\<rparr>
               else s\<lparr>isLoadingMore := True, error := None\<rparr>)"
    and "p = \<lparr>p_section = sec, p_page = page, p_isInitial = isInitial, p_now = now,
              p_call = choose_call s sec page\<rparr>"
    and "isInitial \<or> \<not> recently_fetched (lastFetchTime s (fetch_key sec page)) now"
    and "\<not> (sec = ForYou \<and> is_guest (userId s))"
  using assms
  by (simp_all add: fetchNews_begin_def Let_def split: if_splits)

lemma loadMoreNews_issued:
  assumes "loadMoreNews s now = (s1, Some p)"
  shows "hasMoreNews s" "\<not> isLoadingMore s" "\<not> isLoadingNews s"
    and "fetchNews_begin s (activeSection s) (currentPage s + 1) False now = (s1, Some p)"
  using assms by (simp_all add: loadMoreNews_def split: if_splits)

lemma loadMoreNews_guard:
  "\<not> hasMoreNews s \<or> isLoadingMore s \<or> isLoadingNews s \<Longrightarrow> loadMoreNews s now = (s, None)"
  by (simp add: loadMoreNews_def)

text \<open>The fields after the awaited call has settled, by outcome.\<close>

lemma fetchNews_resume_flags:
  "isLoadingMore (fetchNews_resume s p r) = (p_isInitial p \<and> isLoadingMore s)"
  "isLoadingNews (fetchNews_resume s p r) = (\<not> p_isInitial p \<and> isLoadingNews s)"
  "userId (fetchNews_resume s p r) = userId s"
  "activeSection (fetchNews_resume s p r) = activeSection s"
  by (cases r; simp add: fetchNews_resume_def Let_def)+

lemma fetchNews_resume_resolved:
  assumes "xs \<noteq> []"
  shows "news (fetchNews_resume s p (Resolved xs)) = (if p_isInitial p then xs else news s @ xs)"
    and "currentPage (fetchNews_resume s p (Resolved xs)) = p_page p"
    and "hasMoreNews (fetchNews_resume s p (Resolved xs)) = hasMoreNews s"
    and "error (fetchNews_resume s p (Resolved xs)) = error s"
    and "lastFetchTime (fetchNews_resume s p (Resolved xs))
           = (lastFetchTime s)(fetch_key (p_section p) (p_page p) \<mapsto> p_now p)"
  using assms by (simp_all add: fetchNews_resume_def)

lemma fetchNews_resume_empty:
  "news (fetchNews_resume s p (Resolved [])) = news s"
  "currentPage (fetchNews_resume s p (Resolved [])) = currentPage s"
  "hasMoreNews (fetchNews_resume s p (Resolved [])) = False"
  "error (fetchNews_resume s p (Resolved [])) = error s"
  "lastFetchTime (fetchNews_resume s p (Resolved [])) = lastFetchTime s"
  by (simp_all add: fetchNews_resume_def)

lemma fetchNews_resume_rejected:
  "news (fetchNews_resume s p Rejected) =
     (if p_isInitial p
      then filter (\<lambda>item. p_section p = ForYou \<or> item_section item = section_str (p_section p))
             mockNews
      else news s)"
  "currentPage (fetchNews_resume s p Rejected) = currentPage s"
  "hasMoreNews (fetchNews_resume s p Rejected) = (\<not> p_isInitial p \<and> hasMoreNews s)"
  "error (fetchNews_resume s p Rejected) = Some fail_msg"
  "lastFetchTime (fetchNews_resume s p Rejected) = lastFetchTime s"
  by (simp_all add: fetchNews_resume_def Let_def)

lemma resume_keeps_exhausted:
  "\<not> hasMoreNews s \<Longrightarrow> \<not> hasMoreNews (fetchNews_resume s p r)"
  by (cases r) (simp_all add: fetchNews_resume_def Let_def)

subsection \<open>Which flag an invocation owns\<close>

lemma fetchNews_begin_initial_flag:
  "isLoadingMore (fst (fetchNews_begin s sec page True now)) = isLoadingMore s"
  "snd (fetchNews_begin s sec page True now) = Some p \<Longrightarrow> p_isInitial p"
  by (auto simp add: fetchNews_begin_def Let_def clear_loading_def split: if_splits)

lemma fetchNews_begin_more_flag:
  "snd (fetchNews_begin s sec page False now) = None
     \<Longrightarrow> \<not> isLoadingMore (fst (fetchNews_begin s sec page False now))"
  "snd (fetchNews_begin s sec page False now) = Some p
     \<Longrightarrow> \<not> p_isInitial p \<and> isLoadingMore (fst (fetchNews_begin s sec page False now))"
  by (auto simp add: fetchNews_begin_def Let_def clear_loading_def split: if_splits)

lemma resetAndFetchNews_flag:
  "isLoadingMore (fst (resetAndFetchNews s sec now)) = isLoadingMore s"
  "snd (resetAndFetchNews s sec now) = Some p \<Longrightarrow> p_isInitial p"
  using fetchNews_begin_initial_flag
  by (simp_all add: resetAndFetchNews_def)

lemma loadMoreNews_flag:
  assumes "hasMoreNews s" "\<not> isLoadingMore s" "\<not> isLoadingNews s"
  shows "snd (loadMoreNews s now) = None \<Longrightarrow> \<not> isLoadingMore (fst (loadMoreNews s now))"
    and "snd (loadMoreNews s now) = Some p
           \<Longrightarrow> \<not> p_isInitial p \<and> isLoadingMore (fst (loadMoreNews s now))"
  using assms fetchNews_begin_more_flag
  by (simp_all add: loadMoreNews_def)

lemma loadMoreNews_twice:
  assumes "loadMoreNews s t1 = (s1, Some p)"
  shows "loadMoreNews s1 t2 = (s1, None)"
proof -
  note g = loadMoreNews_issued [OF assms]
  from fetchNews_begin_issued(1) [OF g(4)] have "isLoadingMore s1" by simp
  then show ?thesis by (rule loadMoreNews_guard [OF disjI2, OF disjI1])
qed

subsection \<open>The event system\<close>

lemma more_inflight_issue:
  "more_inflight (issue w (s, po)) =
     more_inflight w @ (case po of None \<Rightarrow> [] | Some p \<Rightarrow> if p_isInitial p then [] else [p])"
  by (cases po) (simp_all add: issue_def more_inflight_def)

lemma st_issue: "st (issue w (s, po)) = s"
  by (cases po) (simp_all add: issue_def)

lemma netlog_issue:
  "netlog (issue w (s, None)) = netlog w"
  "length (netlog (issue w r)) \<le> length (netlog w) + 1"
  "snd r \<noteq> None \<Longrightarrow> length (netlog (issue w r)) = length (netlog w) + 1"
  by (auto simp add: issue_def split: prod.splits option.splits)

lemma length_filter_without_nth:
  assumes "i < length xs"
  shows "length (filter P xs) =
           length (filter P (take i xs @ drop (Suc i) xs)) + (if P (xs ! i) then 1 else 0)"
proof -
  have "xs = take i xs @ xs ! i # drop (Suc i) xs"
    using assms by (rule id_take_nth_drop)
  then have "filter P xs = filter P (take i xs @ xs ! i # drop (Suc i) xs)" by simp
  then show ?thesis by simp
qed

lemma issue_reset_guarded:
  assumes "more_guarded w" and that: "isLoadingMore s = isLoadingMore (st w)"
  shows "more_guarded (issue w (resetAndFetchNews s sec now))"
proof -
  obtain s' po where r: "resetAndFetchNews s sec now = (s', po)"
    by (cases "resetAndFetchNews s sec now")
  from resetAndFetchNews_flag(1) [of s sec now] r that
  have f: "isLoadingMore s' = isLoadingMore (st w)" by simp
  from resetAndFetchNews_flag(2) [of s sec now] r
  have i: "\<And>p. po = Some p \<Longrightarrow> p_isInitial p" by simp
  have "more_inflight (issue w (s', po)) = more_inflight w"
    using i by (cases po) (simp_all add: more_inflight_issue)
  with assms f show ?thesis
    by (simp add: r more_guarded_def st_issue)
qed

text \<open>Every event keeps the flag in step with the suspended load-more invocations.\<close>

lemma step_guarded:
  assumes "more_guarded w"
  shows "more_guarded (step w e)"
proof (cases e)
  case (SectionChange sec now)
  show ?thesis
  proof (cases "sec \<noteq> activeSection (st w) \<and> truthy_id (userId (st w))")
    case True
    with issue_reset_guarded [OF assms, of "(st w)\<lparr>activeSection := sec\<rparr>" sec now] SectionChange
    show ?thesis by (simp add: handleSectionChange_def)
  next
    case False
    with assms SectionChange show ?thesis
      by (auto simp add: handleSectionChange_def issue_def more_guarded_def more_inflight_def)
  qed
next
  case (Refresh now)
  with issue_reset_guarded [OF assms, of "st w" "activeSection (st w)" now]
  show ?thesis by (simp add: handleRefresh_def)
next
  case (LoadMore now)
  show ?thesis
  proof (cases "\<not> hasMoreNews (st w) \<or> isLoadingMore (st w) \<or> isLoadingNews (st w)")
    case True
    with assms LoadMore show ?thesis
      by (simp add: loadMoreNews_def issue_def more_guarded_def more_inflight_def)
  next
    case False
    then have idle: "more_inflight w = []" using assms by (simp add: more_guarded_def)
    from False have g: "hasMoreNews (st w)" "\<not> isLoadingMore (st w)" "\<not> isLoadingNews (st w)"
      by simp_all
    obtain s' po where l: "loadMoreNews (st w) now = (s', po)"
      by (cases "loadMoreNews (st w) now")
    show ?thesis
    proof (cases po)
      case None
      with loadMoreNews_flag(1) [OF g, of now] idle LoadMore l show ?thesis
        by (simp add: more_guarded_def more_inflight_issue)
    next
      case (Some p)
      with loadMoreNews_flag(2) [OF g, of now p] idle LoadMore l show ?thesis
        by (simp add: more_guarded_def more_inflight_issue st_issue)
    qed
  qed
next
  case (Complete i r)
  show ?thesis
  proof (cases "i < length (inflight w)")
    case False
    with assms Complete show ?thesis by simp
  next
    case True
    note c = length_filter_without_nth [OF True, of "\<lambda>p. \<not> p_isInitial p"]
    let ?p = "inflight w ! i"
    have m: "more_inflight (step w e) =
               filter (\<lambda>p. \<not> p_isInitial p) (take i (inflight w) @ drop (Suc i) (inflight w))"
      using True Complete by (simp add: more_inflight_def)
    have f: "isLoadingMore (st (step w e)) = (p_isInitial ?p \<and> isLoadingMore (st w))"
      using True Complete by (simp add: fetchNews_resume_flags)
    show ?thesis
    proof (cases "p_isInitial ?p")
      case True
      with c m f assms show ?thesis
        by (auto simp add: more_guarded_def more_inflight_def)
    next
      case False
      with c m f assms show ?thesis
        by (auto simp add: more_guarded_def more_inflight_def)
    qed
  qed
qed

lemma run_guarded: "more_guarded w \<Longrightarrow> more_guarded (run w es)"
  unfolding run_def by (induction es arbitrary: w) (simp_all add: step_guarded)

text \<open>Without a reset, an exhausted feed stays exhausted and no event calls the network.\<close>

lemma step_exhausted:
  assumes "\<not> hasMoreNews (st w)" and "\<not> is_reset e"
  shows "\<not> hasMoreNews (st (step w e)) \<and> netlog (step w e) = netlog w"
proof (cases e)
  case (LoadMore now)
  with assms show ?thesis by (simp add: loadMoreNews_def issue_def)
next
  case (Complete i r)
  with assms show ?thesis by (simp add: resume_keeps_exhausted)
qed (use assms in simp_all)

lemma run_exhausted:
  assumes "\<not> hasMoreNews (st w)" and "\<forall>e \<in> set es. \<not> is_reset e"
  shows "\<not> hasMoreNews (st (run w es)) \<and> netlog (run w es) = netlog w"
  using assms unfolding run_def
proof (induction es arbitrary: w)
  case Nil
  then show ?case by simp
next
  case (Cons e es)
  from Cons.prems have e: "\<not> is_reset e" and es: "\<forall>e \<in> set es. \<not> is_reset e" by simp_all
  note s = step_exhausted [OF Cons.prems(1) e]
  from Cons.IH [of "step w e"] s es show ?case by simp
qed

subsection \<open>The sample states, evaluated\<close>

lemma show_nat_small: "show_nat (Suc 0) = ''1''" "show_nat (Suc (Suc 0)) = ''2''"
  "show_nat 1 = ''1''" "show_nat 2 = ''2''"
  by (simp_all add: digit_def)

lemmas eval_defs = run_def start_def issue_def loadMoreNews_def handleRefresh_def
  handleSectionChange_def resetAndFetchNews_def fetchNews_begin_def
  fetchNews_resume_def clear_loading_def world_loaded_def user_state_def guest_state_def
  initial_state_def is_guest_def truthy_id_def startsWith_def choose_call_def
  recently_fetched_def Let_def fetch_key_def show_nat_small

lemma world_loaded_loadMore:
  "loadMoreNews world_loaded 2000 =
     (world_loaded\<lparr>isLoadingMore := True, error := None\<rparr>,
      Some \<lparr>p_section = World, p_page = 2, p_isInitial = False, p_now = 2000,
            p_call = ApiFetchUserNews ''user_1'' World 2\<rparr>)"
  by (simp add: loadMoreNews_def fetchNews_begin_def world_loaded_def user_state_def
      initial_state_def fetch_key_def show_nat_small recently_fetched_def choose_call_def
      is_guest_def Let_def del: show_nat.simps)

lemma user_reset_world:
  "resetAndFetchNews user_state World 1000 =
     (user_state\<lparr>isLoadingNews := True\<rparr>,
      Some \<lparr>p_section = World, p_page = 1, p_isInitial = True, p_now = 1000,
            p_call = ApiFetchUserNews ''user_1'' World 1\<rparr>)"
  by (simp add: resetAndFetchNews_def fetchNews_begin_def user_state_def initial_state_def
      choose_call_def is_guest_def Let_def)

lemma user_change_sports:
  "handleSectionChange (user_state\<lparr>isLoadingNews := True\<rparr>) Sports 2000 =
     (user_state\<lparr>isLoadingNews := True, activeSection := Sports\<rparr>,
      Some \<lparr>p_section = Sports, p_page = 1, p_isInitial = True, p_now = 2000,
            p_call = ApiFetchUserNews ''user_1'' Sports 1\<rparr>)"
  by (simp add: handleSectionChange_def resetAndFetchNews_def fetchNews_begin_def user_state_def
      initial_state_def choose_call_def is_guest_def truthy_id_def Let_def)

subsection \<open>Handlers called on a committed render\<close>

lemma fetchNews_in_committed:
  "fetchNews_in s s sec page isInitial now = fetchNews_begin s sec page isInitial now"
  by (simp add: fetchNews_in_def fetchNews_begin_def)

lemma loadMoreNews_in_committed: "loadMoreNews_in s s now = loadMoreNews s now"
  by (simp add: loadMoreNews_in_def loadMoreNews_def fetchNews_in_committed)

text \<open>
  When a render is committed between two calls of \<^verbatim>\<open>loadMoreNews\<close>, the second sees the flag
  the first has set: the guard makes it the identity, two load-more events in a row make at
  most one network call, and on every run of the event system at most one load-more invocation
  is suspended.
\<close>

lemma loadMore_exclusive_between_renders:
  "(\<not> hasMoreNews s \<or> isLoadingMore s \<or> isLoadingNews s \<longrightarrow> loadMoreNews s now = (s, None))
   \<and> (loadMoreNews s t1 = (s1, Some p) \<longrightarrow> loadMoreNews s1 t2 = (s1, None))
   \<and> length (netlog (run w [LoadMore t1, LoadMore t2])) \<le> length (netlog w) + 1
   \<and> (snd (loadMoreNews (st w) t1) \<noteq> None \<longrightarrow>
        length (netlog (run w [LoadMore t1, LoadMore t2])) = length (netlog w) + 1)
   \<and> length (more_inflight (run (start s0) es)) \<le> 1"
proof -
  have a: "\<not> hasMoreNews s \<or> isLoadingMore s \<or> isLoadingNews s \<longrightarrow> loadMoreNews s now = (s, None)"
    using loadMoreNews_guard by blast
  have b: "loadMoreNews s t1 = (s1, Some p) \<longrightarrow> loadMoreNews s1 t2 = (s1, None)"
    using loadMoreNews_twice by blast
  obtain s' po where l: "loadMoreNews (st w) t1 = (s', po)"
    by (cases "loadMoreNews (st w) t1")
  have c: "length (netlog (run w [LoadMore t1, LoadMore t2])) \<le> length (netlog w) + 1
     \<and> (po \<noteq> None \<longrightarrow>
          length (netlog (run w [LoadMore t1, LoadMore t2])) = length (netlog w) + 1)"
  proof (cases po)
    case None
    have "netlog (issue w (s', None)) = netlog w" by (rule netlog_issue(1))
    with netlog_issue(2) [of "issue w (s', None)" "loadMoreNews (st (issue w (s', None))) t2"]
    show ?thesis using None l by (simp add: run_def)
  next
    case (Some q)
    with l loadMoreNews_twice [of "st w" t1 s' q t2] show ?thesis
      by (simp add: run_def issue_def)
  qed
  have "more_guarded (start s0)"
    by (simp add: more_guarded_def more_inflight_def start_def)
  then have "more_guarded (run (start s0) es)" by (rule run_guarded)
  then have d: "length (more_inflight (run (start s0) es)) \<le> 1"
    by (auto simp add: more_guarded_def)
  from a b c d l show ?thesis by simp
qed

section \<open>The claims\<close>

text \<open>
  C1 (as amended). A fetch issued by \<^verbatim>\<open>resetAndFetchNews\<close> for section \<open>A\<close> is still suspended
  when the section changes to \<open>B\<close> and \<open>B\<close>'s first page has settled. When \<open>A\<close>'s fetch then
  settles, \<^verbatim>\<open>fetchNews\<close> compares no section: a non-empty batch replaces the accumulated list,
  sets the cursor to 1 and records the timestamp under \<open>A\<close>'s key; an empty batch clears the
  has-more flag; a failure installs \<open>A\<close>'s fallback list and clears the has-more flag. The
  active section stays \<open>B\<close>, so the list given to the UI is \<open>A\<close>'s batch filtered by \<open>B\<close>.
\<close>

theorem stale_response_applied:
  assumes "resetAndFetchNews s A t1 = (s1, Some pA)"
      and "handleSectionChange s1 B t2 = (s2, Some pB)"
      and "s3 = fetchNews_resume s2 pB rB"
  shows "activeSection (fetchNews_resume s3 pA rA) = B
     \<and> (xs \<noteq> [] \<longrightarrow>
          news (fetchNews_resume s3 pA (Resolved xs)) = xs
        \<and> currentPage (fetchNews_resume s3 pA (Resolved xs)) = 1
        \<and> hasMoreNews (fetchNews_resume s3 pA (Resolved xs)) = hasMoreNews s3
        \<and> lastFetchTime (fetchNews_resume s3 pA (Resolved xs)) (fetch_key A 1) = Some t1
        \<and> filteredNews (fetchNews_resume s3 pA (Resolved xs))
            = filter (\<lambda>item. B = ForYou \<or> item_section item = section_str B) xs)
     \<and> news (fetchNews_resume s3 pA (Resolved [])) = news s3
     \<and> \<not> hasMoreNews (fetchNews_resume s3 pA (Resolved []))
     \<and> news (fetchNews_resume s3 pA Rejected)
         = filter (\<lambda>item. A = ForYou \<or> item_section item = section_str A) mockNews
     \<and> \<not> hasMoreNews (fetchNews_resume s3 pA Rejected)"
proof -
  note a = fetchNews_begin_issued(2) [OF assms(1) [unfolded resetAndFetchNews_def]]
  have pA: "p_isInitial pA" "p_section pA = A" "p_page pA = 1" "p_now pA = t1"
    using a by simp_all
  have "activeSection s2 = B"
    using assms(2)
    by (auto simp add: handleSectionChange_def resetAndFetchNews_def fetchNews_begin_def Let_def
        split: if_splits)
  then have act: "activeSection s3 = B"
    by (simp add: assms(3) fetchNews_resume_flags)
  show ?thesis
    using pA act
    by (simp add: fetchNews_resume_flags fetchNews_resume_resolved fetchNews_resume_empty
        fetchNews_resume_rejected filteredNews_def)
qed

text \<open>
  C1 as stated fails: the world fetch of time 1000 settles after the sports feed was selected
  and loaded, and its batch replaces the sports items.
\<close>

theorem stale_response_applied_counterexample:
  "item_w1 \<noteq> item_s1
   \<and> news (st (run (start user_state)
       [Refresh 1000, SectionChange Sports 2000, Complete 1 (Resolved [item_s1])])) = [item_s1]
   \<and> news (st (run (start user_state)
       [Refresh 1000, SectionChange Sports 2000, Complete 1 (Resolved [item_s1]),
        Complete 0 (Resolved [item_w1])])) = [item_w1]
   \<and> activeSection (st (run (start user_state)
       [Refresh 1000, SectionChange Sports 2000, Complete 1 (Resolved [item_s1]),
        Complete 0 (Resolved [item_w1])])) = Sports
   \<and> lastFetchTime (st (run (start user_state)
       [Refresh 1000, SectionChange Sports 2000, Complete 1 (Resolved [item_s1]),
        Complete 0 (Resolved [item_w1])])) ''world_1'' = Some 1000"
  by (simp add: run_def start_def issue_def handleRefresh_def handleSectionChange_def
      resetAndFetchNews_def fetchNews_begin_def fetchNews_resume_def clear_loading_def
      user_state_def initial_state_def truthy_id_def is_guest_def choose_call_def Let_def
      fetch_key_def show_nat_small item_w1_def item_s1_def del: show_nat.simps)

text \<open>The amended statement, used on that run.\<close>

theorem stale_response_applied_witness:
  "news (st (run (start user_state)
       [Refresh 1000, SectionChange Sports 2000, Complete 1 (Resolved [item_s1]),
        Complete 0 (Resolved [item_w1])])) = [item_w1]
   \<and> filteredNews (st (run (start user_state)
       [Refresh 1000, SectionChange Sports 2000, Complete 1 (Resolved [item_s1]),
        Complete 0 (Resolved [item_w1])])) = []"
proof -
  let ?pA = "\<lparr>p_section = World, p_page = 1, p_isInitial = True, p_now = 1000,
              p_call = ApiFetchUserNews ''user_1'' World 1\<rparr>"
  let ?pB = "\<lparr>p_section = Sports, p_page = 1, p_isInitial = True, p_now = 2000,
              p_call = ApiFetchUserNews ''user_1'' Sports 1\<rparr>"
  let ?s2 = "user_state\<lparr>isLoadingNews := True, activeSection := Sports\<rparr>"
  let ?s4 = "fetchNews_resume (fetchNews_resume ?s2 ?pB (Resolved [item_s1])) ?pA
               (Resolved [item_w1])"
  note t = stale_response_applied [where rB = "Resolved [item_s1]" and xs = "[item_w1]",
      OF user_reset_world user_change_sports refl]
  from t have n: "news ?s4 = [item_w1]" by simp
  from t have f: "filteredNews ?s4 = []" by (simp add: item_w1_def)
  have a: "activeSection user_state = World"
    by (simp add: user_state_def initial_state_def)
  have r: "st (run (start user_state)
       [Refresh 1000, SectionChange Sports 2000, Complete 1 (Resolved [item_s1]),
        Complete 0 (Resolved [item_w1])]) = ?s4"
    by (simp add: run_def start_def issue_def handleRefresh_def a user_reset_world
        user_change_sports)
  show ?thesis using n f r by simp
qed

text \<open>
  C2 (as amended). A load-more invocation of \<^verbatim>\<open>fetchNews\<close> for a (section, page) pair reached
  the network at time \<open>t1\<close> and settled with a non-empty batch, which is the only outcome that
  records a timestamp (a failure and an empty batch record none). In any later state that
  still holds that timestamp, a load-more for the same pair at time \<open>t2\<close> makes no network call
  when \<open>t2 - t1 < 5000\<close>, and reaches the network when \<open>t2 - t1 \<ge> 5000\<close> (unless it is the
  guest on the personalized feed); the same holds through \<^verbatim>\<open>loadMoreNews\<close> when the pair is its
  next page and, for the second part, its guard is open.
\<close>

theorem dedup_window:
  assumes "fetchNews_begin s sec page False t1 = (s1, Some p)"
      and "xs \<noteq> []" and "t1 \<noteq> 0"
      and "lastFetchTime s3 (fetch_key sec page)
             = lastFetchTime (fetchNews_resume s2 p (Resolved xs)) (fetch_key sec page)"
  shows "(t2 - t1 < 5000 \<longrightarrow> snd (fetchNews_begin s3 sec page False t2) = None)
     \<and> (5000 \<le> t2 - t1 \<and> \<not> (sec = ForYou \<and> is_guest (userId s3)) \<longrightarrow>
          snd (fetchNews_begin s3 sec page False t2) \<noteq> None)
     \<and> (activeSection s3 = sec \<and> currentPage s3 + 1 = page \<longrightarrow>
          (t2 - t1 < 5000 \<longrightarrow> snd (loadMoreNews s3 t2) = None)
        \<and> (5000 \<le> t2 - t1 \<and> hasMoreNews s3 \<and> \<not> isLoadingMore s3 \<and> \<not> isLoadingNews s3
             \<and> \<not> (sec = ForYou \<and> is_guest (userId s3)) \<longrightarrow> snd (loadMoreNews s3 t2) \<noteq> None))
     \<and> lastFetchTime (fetchNews_resume s2 p Rejected) = lastFetchTime s2
     \<and> lastFetchTime (fetchNews_resume s2 p (Resolved [])) = lastFetchTime s2"
proof -
  note b = fetchNews_begin_issued(2) [OF assms(1)]
  have "lastFetchTime s3 (fetch_key sec page) = Some t1"
    using assms(2,4) b by (simp add: fetchNews_resume_resolved)
  then have r: "recently_fetched (lastFetchTime s3 (fetch_key sec page)) t2 \<longleftrightarrow> t2 - t1 < 5000"
    using assms(3) by (simp add: recently_fetched_def)
  have f: "snd (fetchNews_begin s3 sec page False t2) = None
            \<longleftrightarrow> t2 - t1 < 5000 \<or> (sec = ForYou \<and> is_guest (userId s3))"
    using r by (simp add: fetchNews_begin_def Let_def)
  have l: "snd (loadMoreNews s3 t2) = None
            \<longleftrightarrow> \<not> hasMoreNews s3 \<or> isLoadingMore s3 \<or> isLoadingNews s3
                \<or> snd (fetchNews_begin s3 sec page False t2) = None"
    if "activeSection s3 = sec" "currentPage s3 + 1 = page"
    using that by (auto simp add: loadMoreNews_def)
  show ?thesis
    using f l by (auto simp add: fetchNews_resume_rejected fetchNews_resume_empty)
qed

text \<open>
  C2 as stated fails: the first load-more for page 2 has completed, by a failure, and a second
  one a second later calls the network again.
\<close>

theorem dedup_window_counterexample:
  "netlog (run (start world_loaded) [LoadMore 2000, Complete 0 Rejected, LoadMore 3000])
     = [ApiFetchUserNews ''user_1'' World 2, ApiFetchUserNews ''user_1'' World 2]
   \<and> inflight (run (start world_loaded) [LoadMore 2000, Complete 0 Rejected]) = []"
  by (simp add: run_def start_def issue_def loadMoreNews_def fetchNews_begin_def
      fetchNews_resume_def clear_loading_def world_loaded_def user_state_def initial_state_def
      is_guest_def choose_call_def recently_fetched_def Let_def fetch_key_def show_nat_small
      del: show_nat.simps)

text \<open>
  The amended statement on a run: page 2 is loaded at 2000, the feed is refreshed at 3000, and
  the next load-more targets page 2 again.
\<close>

theorem dedup_window_witness:
  "snd (loadMoreNews (st (run (start world_loaded)
      [LoadMore 2000, Complete 0 (Resolved [item_w2]), Refresh 3000,
       Complete 0 (Resolved [item_w1])])) 4000) = None
   \<and> snd (loadMoreNews (st (run (start world_loaded)
      [LoadMore 2000, Complete 0 (Resolved [item_w2]), Refresh 3000,
       Complete 0 (Resolved [item_w1])])) 8000) \<noteq> None
   \<and> netlog (run (start world_loaded)
      [LoadMore 2000, Complete 0 (Resolved [item_w2]), Refresh 3000,
       Complete 0 (Resolved [item_w1])])
      = [ApiFetchUserNews ''user_1'' World 2, ApiFetchUserNews ''user_1'' World 1]"
proof -
  let ?s1 = "world_loaded\<lparr>isLoadingMore := True, error := None\<rparr>"
  let ?p = "\<lparr>p_section = World, p_page = 2, p_isInitial = False, p_now = 2000,
             p_call = ApiFetchUserNews ''user_1'' World 2\<rparr>"
  let ?s3 = "st (run (start world_loaded)
      [LoadMore 2000, Complete 0 (Resolved [item_w2]), Refresh 3000,
       Complete 0 (Resolved [item_w1])])"
  have c: "activeSection world_loaded = World" "currentPage world_loaded + 1 = 2"
    by (simp_all add: world_loaded_def user_state_def initial_state_def)
  have b: "fetchNews_begin world_loaded World 2 False 2000 = (?s1, Some ?p)"
    using loadMoreNews_issued(4) [OF world_loaded_loadMore] unfolding c .
  have k: "lastFetchTime ?s3 (fetch_key World 2)
             = lastFetchTime (fetchNews_resume ?s1 ?p (Resolved [item_w2])) (fetch_key World 2)"
    by (simp add: eval_defs del: show_nat.simps)
  have f: "activeSection ?s3 = World" "currentPage ?s3 + 1 = 2" "hasMoreNews ?s3"
    "\<not> isLoadingMore ?s3" "\<not> isLoadingNews ?s3" "\<not> is_guest (userId ?s3)"
    by (simp_all add: eval_defs del: show_nat.simps)
  have n: "netlog (run (start world_loaded)
      [LoadMore 2000, Complete 0 (Resolved [item_w2]), Refresh 3000,
       Complete 0 (Resolved [item_w1])])
      = [ApiFetchUserNews ''user_1'' World 2, ApiFetchUserNews ''user_1'' World 1]"
    by (simp add: eval_defs del: show_nat.simps)
  have x: "[item_w2] \<noteq> []" "(2000::int) \<noteq> 0" by simp_all
  from dedup_window [OF b x k, of 4000] f
  have early: "snd (loadMoreNews ?s3 4000) = None" by simp
  from dedup_window [OF b x k, of 8000] f
  have late: "snd (loadMoreNews ?s3 8000) \<noteq> None" by simp
  from early late n show ?thesis by blast
qed

text \<open>
  C3. For an identity whose handle starts with \<^verbatim>\<open>guest_\<close> and the personalized feed, no
  invocation of \<^verbatim>\<open>fetchNews\<close> reaches a network call, and the load operation
  \<^verbatim>\<open>resetAndFetchNews\<close> ends at once in the state with no items, no more pages, the fixed
  advisory as error and the loading flag cleared; the log of network calls is unchanged.
\<close>

theorem guest_for_you_short_circuit:
  assumes "is_guest (userId s)"
  shows "snd (fetchNews_begin s ForYou page isInitial now) = None
     \<and> resetAndFetchNews s ForYou now =
         (s\<lparr>news := [], currentPage := 1, hasMoreNews := False, error := Some guest_msg,
            isLoadingNews := False\<rparr>, None)
     \<and> netlog (issue w (resetAndFetchNews s ForYou now)) = netlog w"
  using assms
  by (simp add: fetchNews_begin_def resetAndFetchNews_def clear_loading_def issue_def Let_def)

text \<open>A guest selects the personalized feed.\<close>

theorem guest_for_you_short_circuit_witness:
  "is_guest (userId guest_state)
   \<and> netlog (run (start guest_state) [SectionChange ForYou 1000]) = []
   \<and> news (st (run (start guest_state) [SectionChange ForYou 1000])) = []
   \<and> hasMoreNews (st (run (start guest_state) [SectionChange ForYou 1000])) = False
   \<and> error (st (run (start guest_state) [SectionChange ForYou 1000])) = Some guest_msg"
proof -
  have g: "is_guest (userId guest_state)"
    by (simp add: guest_state_def initial_state_def is_guest_def startsWith_def)
  have a: "activeSection guest_state = World" "truthy_id (userId guest_state)"
    by (simp_all add: guest_state_def initial_state_def truthy_id_def)
  have g': "is_guest (userId (guest_state\<lparr>activeSection := ForYou\<rparr>))"
    using g by simp
  note r = guest_for_you_short_circuit [OF g', of 1 True 1000 "start guest_state"]
  show ?thesis
    using g a r
    by (simp add: run_def handleSectionChange_def start_def issue_def)
qed

text \<open>
  C4 (what the code does). The guard of \<^verbatim>\<open>loadMoreNews\<close> reads the flags of the render its
  closure belongs to. When a call has passed the guard and reached the network, a second call
  of the same closure, made before the next render is committed, passes the guard again and
  makes a second network call for the same page; when both calls settle with non-empty
  batches, both batches are appended. Only a call made on the next render is stopped.
\<close>

theorem loadMore_same_render_race:
  assumes "loadMoreNews_in c c t1 = (s1, Some p)" and "t1 \<le> t2"
  shows "loadMoreNews_in c s1 t2 = (s1, Some (p\<lparr>p_now := t2\<rparr>))
     \<and> p_call (p\<lparr>p_now := t2\<rparr>) = p_call p
     \<and> p_page p = currentPage c + 1
     \<and> (xs \<noteq> [] \<and> ys \<noteq> [] \<longrightarrow>
          news (fetchNews_resume (fetchNews_resume s1 p (Resolved xs)) (p\<lparr>p_now := t2\<rparr>)
                 (Resolved ys)) = news c @ xs @ ys)
     \<and> loadMoreNews_in s1 s1 t2 = (s1, None)"
proof -
  from assms(1) have l: "loadMoreNews c t1 = (s1, Some p)"
    by (simp add: loadMoreNews_in_committed)
  note g = loadMoreNews_issued [OF l]
  note b = fetchNews_begin_issued [OF g(4)]
  have s1: "s1 = c\<lparr>isLoadingMore := True, error := None\<rparr>"
    using b(1) by simp
  have fresh: "\<not> recently_fetched (lastFetchTime c (fetch_key (activeSection c) (currentPage c + 1))) t2"
    using b(3) assms(2) by (auto simp add: recently_fetched_def split: option.splits)
  have again: "loadMoreNews_in c s1 t2 = (s1, Some (p\<lparr>p_now := t2\<rparr>))"
    using g(1-3) b(4) fresh
    by (simp add: loadMoreNews_in_def fetchNews_in_def Let_def s1 b(2))
  have np: "\<not> p_isInitial p" "p_page p = currentPage c + 1"
    using b(2) by simp_all
  have n1: "news s1 = news c" by (simp add: s1)
  have both: "news (fetchNews_resume (fetchNews_resume s1 p (Resolved xs)) (p\<lparr>p_now := t2\<rparr>)
                 (Resolved ys)) = news c @ xs @ ys" if "xs \<noteq> []" "ys \<noteq> []"
    using that np n1 by (simp add: fetchNews_resume_resolved)
  have later: "loadMoreNews_in s1 s1 t2 = (s1, None)"
    using loadMoreNews_twice [OF l] by (simp add: loadMoreNews_in_committed)
  from again np both later show ?thesis by simp
qed

text \<open>Two calls of the closure of one render on a loaded feed, a millisecond apart.\<close>

theorem loadMore_same_render_race_witness:
  "loadMoreNews_in world_loaded world_loaded 2000 =
     (world_loaded\<lparr>isLoadingMore := True, error := None\<rparr>,
      Some \<lparr>p_section = World, p_page = 2, p_isInitial = False, p_now = 2000,
            p_call = ApiFetchUserNews ''user_1'' World 2\<rparr>)
   \<and> loadMoreNews_in world_loaded (world_loaded\<lparr>isLoadingMore := True, error := None\<rparr>) 2001 =
     (world_loaded\<lparr>isLoadingMore := True, error := None\<rparr>,
      Some \<lparr>p_section = World, p_page = 2, p_isInitial = False, p_now = 2001,
            p_call = ApiFetchUserNews ''user_1'' World 2\<rparr>)
   \<and> news (fetchNews_resume
        (fetchNews_resume (world_loaded\<lparr>isLoadingMore := True, error := None\<rparr>)
           \<lparr>p_section = World, p_page = 2, p_isInitial = False, p_now = 2000,
            p_call = ApiFetchUserNews ''user_1'' World 2\<rparr> (Resolved [item_w2]))
        \<lparr>p_section = World, p_page = 2, p_isInitial = False, p_now = 2001,
         p_call = ApiFetchUserNews ''user_1'' World 2\<rparr> (Resolved [item_w2]))
      = [item_w1, item_w2, item_w2]"
proof -
  have h: "loadMoreNews_in world_loaded world_loaded 2000 =
     (world_loaded\<lparr>isLoadingMore := True, error := None\<rparr>,
      Some \<lparr>p_section = World, p_page = 2, p_isInitial = False, p_now = 2000,
            p_call = ApiFetchUserNews ''user_1'' World 2\<rparr>)"
    by (simp add: loadMoreNews_in_committed world_loaded_loadMore)
  have t: "(2000::int) \<le> 2001" by simp
  have n: "news world_loaded = [item_w1]"
    by (simp add: world_loaded_def user_state_def initial_state_def)
  from loadMore_same_render_race [OF h t, where xs = "[item_w2]" and ys = "[item_w2]"] h n
  show ?thesis by simp
qed

text \<open>
  C5 (as amended). When the fetch of \<^verbatim>\<open>resetAndFetchNews\<close> fails, the state holds the fallback
  set filtered to the requested section (the whole set for the personalized section), the
  has-more flag is cleared, the error message is set and the loading flag is cleared. The list
  is non-empty exactly for the sections \<^verbatim>\<open>for-you\<close> and \<^verbatim>\<open>world\<close>: the fallback set has one
  item of each and none of any other section.
\<close>

theorem initial_failure_fallback:
  assumes "resetAndFetchNews s sec now = (s1, Some p)"
  shows "fetchNews_resume s1 p Rejected =
           s\<lparr>news := filter (\<lambda>item. sec = ForYou \<or> item_section item = section_str sec) mockNews,
             currentPage := 1, hasMoreNews := False, error := Some fail_msg,
             isLoadingNews := False\<rparr>
       \<and> (sec = ForYou \<longrightarrow> news (fetchNews_resume s1 p Rejected) = mockNews)
       \<and> (news (fetchNews_resume s1 p Rejected) \<noteq> [] \<longleftrightarrow> sec = ForYou \<or> sec = World)"
proof -
  note b = fetchNews_begin_issued [OF assms [unfolded resetAndFetchNews_def]]
  have r: "fetchNews_resume s1 p Rejected =
           s\<lparr>news := filter (\<lambda>item. sec = ForYou \<or> item_section item = section_str sec) mockNews,
             currentPage := 1, hasMoreNews := False, error := Some fail_msg,
             isLoadingNews := False\<rparr>"
    using b(1,2) by (simp add: fetchNews_resume_def clear_loading_def)
  have m: "(filter (\<lambda>item. sec = ForYou \<or> item_section item = section_str sec) mockNews \<noteq> [])
            \<longleftrightarrow> sec = ForYou \<or> sec = World"
    by (cases sec) (simp_all add: mockNews_def)
  show ?thesis using r m by simp
qed

text \<open>C5 as stated fails: the first page of the sports feed fails and the list is empty.\<close>

theorem initial_failure_fallback_counterexample:
  "news (st (run (start user_state) [SectionChange Sports 1000, Complete 0 Rejected])) = []
   \<and> hasMoreNews (st (run (start user_state) [SectionChange Sports 1000, Complete 0 Rejected])) = False
   \<and> error (st (run (start user_state) [SectionChange Sports 1000, Complete 0 Rejected])) = Some fail_msg
   \<and> netlog (run (start user_state) [SectionChange Sports 1000, Complete 0 Rejected])
       = [ApiFetchUserNews ''user_1'' Sports 1]"
  by (simp add: run_def start_def issue_def handleSectionChange_def resetAndFetchNews_def
      fetchNews_begin_def fetchNews_resume_def clear_loading_def user_state_def initial_state_def
      truthy_id_def is_guest_def choose_call_def mockNews_def Let_def)

text \<open>The amended statement on the world feed.\<close>

theorem initial_failure_fallback_witness:
  "news (st (run (start user_state) [Refresh 1000, Complete 0 Rejected])) = [mockNews ! 0]
   \<and> hasMoreNews (st (run (start user_state) [Refresh 1000, Complete 0 Rejected])) = False
   \<and> error (st (run (start user_state) [Refresh 1000, Complete 0 Rejected])) = Some fail_msg
   \<and> isLoadingNews (st (run (start user_state) [Refresh 1000, Complete 0 Rejected])) = False"
proof -
  let ?s1 = "user_state\<lparr>isLoadingNews := True\<rparr>"
  let ?p = "\<lparr>p_section = World, p_page = 1, p_isInitial = True, p_now = 1000,
            p_call = ApiFetchUserNews ''user_1'' World 1\<rparr>"
  have a: "activeSection user_state = World"
    by (simp add: user_state_def initial_state_def)
  have r: "st (run (start user_state) [Refresh 1000, Complete 0 Rejected])
            = fetchNews_resume ?s1 ?p Rejected"
    by (simp add: run_def start_def issue_def handleRefresh_def a user_reset_world)
  from initial_failure_fallback [OF user_reset_world]
  have "fetchNews_resume ?s1 ?p Rejected =
     user_state\<lparr>news := filter (\<lambda>item. World = ForYou \<or> item_section item = section_str World) mockNews,
       currentPage := 1, hasMoreNews := False, error := Some fail_msg, isLoadingNews := False\<rparr>"
    by blast
  with r show ?thesis by (simp add: mockNews_def)
qed

text \<open>
  C6. When \<^verbatim>\<open>loadMoreNews\<close> has made its network call and the call fails, the state is the
  one before the call with only the error message set: the items, the cursor and the
  has-more flag are as they were and no fallback item is added. Whatever happened while the
  call was suspended, its failure changes neither the items nor the cursor nor the has-more
  flag of the state it settles on. The failure is not terminal: a later \<^verbatim>\<open>loadMoreNews\<close>
  reaches the network again.
\<close>

theorem loadMore_failure_keeps_list:
  assumes "loadMoreNews s now = (s1, Some p)"
  shows "fetchNews_resume s1 p Rejected = s\<lparr>error := Some fail_msg\<rparr>
     \<and> news (fetchNews_resume s' p Rejected) = news s'
     \<and> currentPage (fetchNews_resume s' p Rejected) = currentPage s'
     \<and> hasMoreNews (fetchNews_resume s' p Rejected) = hasMoreNews s'
     \<and> error (fetchNews_resume s' p Rejected) = Some fail_msg
     \<and> (now \<le> now' \<longrightarrow> snd (loadMoreNews (fetchNews_resume s1 p Rejected) now') \<noteq> None)"
proof -
  note g = loadMoreNews_issued [OF assms]
  note b = fetchNews_begin_issued [OF g(4)]
  have s1: "s1 = s\<lparr>isLoadingMore := True, error := None\<rparr>"
    using b(1) by simp
  have idle: "s\<lparr>isLoadingMore := False\<rparr> = s"
    using g(2) by (cases s) simp
  have "fetchNews_resume s1 p Rejected = (s\<lparr>isLoadingMore := False\<rparr>)\<lparr>error := Some fail_msg\<rparr>"
    by (simp add: fetchNews_resume_def clear_loading_def s1 b(2))
  then have r: "fetchNews_resume s1 p Rejected = s\<lparr>error := Some fail_msg\<rparr>"
    by (simp only: idle)
  have "snd (loadMoreNews (s\<lparr>error := Some fail_msg\<rparr>) now') \<noteq> None" if "now \<le> now'"
  proof -
    have "\<not> recently_fetched (lastFetchTime s (fetch_key (activeSection s) (currentPage s + 1))) now'"
      using b(3) that by (auto simp add: recently_fetched_def split: option.splits)
    then show ?thesis
      using g(1-3) b(4)
      by (simp add: loadMoreNews_def fetchNews_begin_def Let_def)
  qed
  moreover have "\<not> p_isInitial p"
    using b(2) by simp
  ultimately show ?thesis
    using r by (simp add: fetchNews_resume_rejected)
qed

text \<open>A failing load-more after a loaded first page.\<close>

theorem loadMore_failure_keeps_list_witness:
  "st (run (start world_loaded) [LoadMore 2000, Complete 0 Rejected])
     = world_loaded\<lparr>error := Some fail_msg\<rparr>
   \<and> news (world_loaded\<lparr>error := Some fail_msg\<rparr>) = [item_w1]
   \<and> currentPage (world_loaded\<lparr>error := Some fail_msg\<rparr>) = 1
   \<and> hasMoreNews (world_loaded\<lparr>error := Some fail_msg\<rparr>)
   \<and> snd (loadMoreNews (world_loaded\<lparr>error := Some fail_msg\<rparr>) 3000) \<noteq> None"
proof -
  note th = loadMore_failure_keeps_list [OF world_loaded_loadMore, where now' = 3000]
  from th have t: "fetchNews_resume (world_loaded\<lparr>isLoadingMore := True, error := None\<rparr>)
             \<lparr>p_section = World, p_page = 2, p_isInitial = False, p_now = 2000,
              p_call = ApiFetchUserNews ''user_1'' World 2\<rparr> Rejected
           = world_loaded\<lparr>error := Some fail_msg\<rparr>"
    by blast
  from th have u: "snd (loadMoreNews (world_loaded\<lparr>error := Some fail_msg\<rparr>) 3000) \<noteq> None"
    unfolding t by simp
  have r: "st (run (start world_loaded) [LoadMore 2000, Complete 0 Rejected])
     = world_loaded\<lparr>error := Some fail_msg\<rparr>"
    by (simp add: run_def start_def issue_def world_loaded_loadMore t)
  have f: "news world_loaded = [item_w1]" "currentPage world_loaded = 1" "hasMoreNews world_loaded"
    by (simp_all add: world_loaded_def user_state_def initial_state_def)
  show ?thesis using r u f by simp
qed

text \<open>
  C7 (what the code does). A response with a non-success status whose body parses to an array
  is rejected by \<^verbatim>\<open>api.fetchUserNews\<close> and \<^verbatim>\<open>api.fetchNews\<close>, through \<^verbatim>\<open>handleResponse\<close>,
  and \<^verbatim>\<open>fetchNews\<close> takes its \<^verbatim>\<open>catch\<close> branch. The raw call of the personalized feed never
  reads the status: the same response is returned as the batch and \<^verbatim>\<open>fetchNews\<close> continues
  as after a success.
\<close>

theorem raw_for_you_accepts_error_status:
  assumes "\<not> ok r" and "body r = Some (JsonItems xs)"
  shows "perform (RawForYou uid sec page) (Reply r) = Inr (JsonItems xs)
     \<and> (p_call p = RawForYou uid sec page \<longrightarrow>
          fetchNews_settle s p (Reply r) = Some (fetchNews_resume s p (Resolved xs)))
     \<and> perform (ApiFetchUserNews u sec page) (Reply r) = Inl (HttpError (error_message r))
     \<and> perform (ApiFetchNews sec page) (Reply r) = Inl (HttpError (error_message r))
     \<and> (p_call p = ApiFetchUserNews u sec page \<or> p_call p = ApiFetchNews sec page \<longrightarrow>
          fetchNews_settle s p (Reply r) = Some (fetchNews_resume s p Rejected))"
  using assms by (auto simp add: fetchNews_settle_def handleResponse_def)

text \<open>A signed-in user's personalized feed answered with HTTP 500 and an array.\<close>

theorem raw_for_you_accepts_error_status_witness:
  "perform (RawForYou (Some ''user_1'') ForYou 1) (Reply server_error) = Inr (JsonItems [item_w1])
   \<and> perform (ApiFetchUserNews ''user_1'' World 1) (Reply server_error)
       = Inl (HttpError ''HTTP 500: Internal Server Error'')
   \<and> map_option news
        (fetchNews_settle (user_state\<lparr>activeSection := ForYou, isLoadingNews := True\<rparr>)
          \<lparr>p_section = ForYou, p_page = 1, p_isInitial = True, p_now = 1000,
           p_call = RawForYou (Some ''user_1'') ForYou 1\<rparr> (Reply server_error))
       = Some [item_w1]
   \<and> map_option error
        (fetchNews_settle (user_state\<lparr>activeSection := ForYou, isLoadingNews := True\<rparr>)
          \<lparr>p_section = ForYou, p_page = 1, p_isInitial = True, p_now = 1000,
           p_call = RawForYou (Some ''user_1'') ForYou 1\<rparr> (Reply server_error))
       = Some None"
proof -
  have h: "\<not> ok server_error" "body server_error = Some (JsonItems [item_w1])"
    by (simp_all add: server_error_def)
  have m: "error_message server_error = ''HTTP 500: Internal Server Error''"
    by (simp add: error_message_def server_error_def digit_def Let_def)
  note t = raw_for_you_accepts_error_status [OF h,
      where uid = "Some ''user_1''" and sec = ForYou and page = 1
        and p = "\<lparr>p_section = ForYou, p_page = 1, p_isInitial = True, p_now = 1000,
                   p_call = RawForYou (Some ''user_1'') ForYou 1\<rparr>"
        and s = "user_state\<lparr>activeSection := ForYou, isLoadingNews := True\<rparr>"]
  note t' = raw_for_you_accepts_error_status [OF h, where u = "''user_1''" and sec = World and page = 1]
  from t have a: "perform (RawForYou (Some ''user_1'') ForYou 1) (Reply server_error) = Inr (JsonItems [item_w1])"
    by blast
  from t' m have b: "perform (ApiFetchUserNews ''user_1'' World 1) (Reply server_error)
       = Inl (HttpError ''HTTP 500: Internal Server Error'')"
    by simp
  from t have c: "fetchNews_settle (user_state\<lparr>activeSection := ForYou, isLoadingNews := True\<rparr>)
          \<lparr>p_section = ForYou, p_page = 1, p_isInitial = True, p_now = 1000,
           p_call = RawForYou (Some ''user_1'') ForYou 1\<rparr> (Reply server_error)
       = Some (fetchNews_resume (user_state\<lparr>activeSection := ForYou, isLoadingNews := True\<rparr>)
          \<lparr>p_section = ForYou, p_page = 1, p_isInitial = True, p_now = 1000,
           p_call = RawForYou (Some ''user_1'') ForYou 1\<rparr> (Resolved [item_w1]))"
    by simp
  show ?thesis
    unfolding c using a b
    by (simp add: fetchNews_resume_resolved user_state_def initial_state_def)
qed

text \<open>
  C8. When a suspended fetch settles with an empty batch the has-more flag is cleared, and on
  every continuation without a reset (no section change, no refresh) the flag stays cleared,
  the log of network calls does not grow, and \<^verbatim>\<open>loadMoreNews\<close> changes nothing.
\<close>

theorem exhaustion_terminal:
  assumes "i < length (inflight w)" and "\<forall>e \<in> set es. \<not> is_reset e"
  shows "\<not> hasMoreNews (st (step w (Complete i (Resolved []))))
     \<and> netlog (run (step w (Complete i (Resolved []))) es) = netlog w
     \<and> \<not> hasMoreNews (st (run (step w (Complete i (Resolved []))) es))
     \<and> loadMoreNews (st (run (step w (Complete i (Resolved []))) es)) now
         = (st (run (step w (Complete i (Resolved []))) es), None)"
proof -
  let ?w = "step w (Complete i (Resolved []))"
  have x: "\<not> hasMoreNews (st ?w)" and n: "netlog ?w = netlog w"
    using assms(1) by (simp_all add: fetchNews_resume_def)
  note r = run_exhausted [OF x assms(2)]
  then show ?thesis using x n by (simp add: loadMoreNews_def)
qed

text \<open>An empty first page, then load-more events.\<close>

theorem exhaustion_terminal_witness:
  "hasMoreNews (st (run (start user_state) [Refresh 1000, Complete 0 (Resolved [])])) = False
   \<and> netlog (run (run (start user_state) [Refresh 1000, Complete 0 (Resolved [])])
        [LoadMore 2000, Complete 0 Rejected, LoadMore 9000])
      = [ApiFetchUserNews ''user_1'' World 1]"
proof -
  let ?w = "\<lparr>st = user_state\<lparr>isLoadingNews := True\<rparr>,
             inflight = [\<lparr>p_section = World, p_page = 1, p_isInitial = True, p_now = 1000,
                          p_call = ApiFetchUserNews ''user_1'' World 1\<rparr>],
             netlog = [ApiFetchUserNews ''user_1'' World 1]\<rparr>"
  have a: "activeSection user_state = World"
    by (simp add: user_state_def initial_state_def)
  have w: "step (start user_state) (Refresh 1000) = ?w"
    by (simp add: start_def issue_def handleRefresh_def a user_reset_world)
  have i: "0 < length (inflight ?w)"
    by simp
  have e: "\<forall>e \<in> set [LoadMore 2000, Complete 0 Rejected, LoadMore 9000]. \<not> is_reset e"
    by simp
  have r: "run (start user_state) [Refresh 1000, Complete 0 (Resolved [])]
            = step ?w (Complete 0 (Resolved []))"
    unfolding w [symmetric] by (simp add: run_def)
  from exhaustion_terminal [OF i e] show ?thesis
    unfolding r by simp
qed

text \<open>
  C9. Running \<^verbatim>\<open>resetAndFetchNews\<close> to completion twice in sequence, for the same section and
  against a fetch with the same answer, gives the same observed pagination state after the
  second run as after the first. The second run makes no network call only for the guest on
  the personalized feed: whatever timestamps are recorded, it is not suppressed.
\<close>

theorem reset_twice_same_state:
  "pagination (resetAndFetchNews_stubbed (resetAndFetchNews_stubbed s k t1 r) k t2 r)
     = pagination (resetAndFetchNews_stubbed s k t1 r)
   \<and> (snd (resetAndFetchNews (resetAndFetchNews_stubbed s k t1 r) k t2) = None
        \<longleftrightarrow> k = ForYou \<and> is_guest (userId s))"
proof (cases "k = ForYou \<and> is_guest (userId s)")
  case True
  then show ?thesis
    by (simp add: resetAndFetchNews_stubbed_def resetAndFetchNews_def fetchNews_begin_def
        pagination_def Let_def)
next
  case False
  then show ?thesis
    by (cases r)
      (auto simp add: resetAndFetchNews_stubbed_def resetAndFetchNews_def fetchNews_begin_def
        fetchNews_resume_def pagination_def clear_loading_def Let_def)
qed

text \<open>Two resets of the world feed one millisecond apart.\<close>

theorem reset_twice_same_state_witness:
  "pagination (resetAndFetchNews_stubbed
       (resetAndFetchNews_stubbed user_state World 1000 (Resolved [item_w1])) World 1001
       (Resolved [item_w1]))
     = ([item_w1], 1, False, False, False, None)
   \<and> snd (resetAndFetchNews
       (resetAndFetchNews_stubbed user_state World 1000 (Resolved [item_w1])) World 1001) \<noteq> None"
proof -
  have q: "resetAndFetchNews_stubbed user_state World 1000 (Resolved [item_w1])
             = fetchNews_resume (user_state\<lparr>isLoadingNews := True\<rparr>)
                 \<lparr>p_section = World, p_page = 1, p_isInitial = True, p_now = 1000,
                  p_call = ApiFetchUserNews ''user_1'' World 1\<rparr> (Resolved [item_w1])"
    by (simp add: resetAndFetchNews_stubbed_def user_reset_world)
  have p: "pagination (resetAndFetchNews_stubbed user_state World 1000 (Resolved [item_w1]))
             = ([item_w1], 1, False, False, False, None)"
    unfolding q
    by (simp add: pagination_def fetchNews_resume_resolved fetchNews_resume_flags
        user_state_def initial_state_def)
  have g: "\<not> is_guest (userId user_state)"
    by (simp add: user_state_def initial_state_def is_guest_def startsWith_def)
  from reset_twice_same_state [of user_state World 1000 "Resolved [item_w1]" 1001] p g
  show ?thesis by simp
qed

text \<open>
  C10. The list given to the UI is the accumulated list filtered by the active section:
  all of it on the personalized section, otherwise the items whose section tag is the active
  section's string, in their order. An item with another tag stays in the accumulated list
  and is not shown; the cards the main panel renders are this list.
\<close>

theorem filteredNews_by_section:
  "filteredNews s =
     (if activeSection s = ForYou then news s
      else filter (\<lambda>item. item_section item = section_str (activeSection s)) (news s))
   \<and> subseq (filteredNews s) (news s)
   \<and> (\<forall>item \<in> set (news s).
         item \<in> set (filteredNews s) \<longleftrightarrow>
           (activeSection s = ForYou \<or> item_section item = section_str (activeSection s)))
   \<and> (main_panel s = Cards xs \<longrightarrow> xs = filteredNews s)"
  by (auto simp add: filteredNews_def main_panel_def)

text \<open>A sports item in the list of the world feed.\<close>

theorem filteredNews_by_section_witness:
  "filteredNews (user_state\<lparr>news := [item_w1, item_s1]\<rparr>) = [item_w1]
   \<and> item_s1 \<in> set (news (user_state\<lparr>news := [item_w1, item_s1]\<rparr>))
   \<and> item_s1 \<notin> set (filteredNews (user_state\<lparr>news := [item_w1, item_s1]\<rparr>))
   \<and> main_panel (user_state\<lparr>news := [item_w1, item_s1]\<rparr>) = Cards [item_w1]"
  using filteredNews_by_section [of "user_state\<lparr>news := [item_w1, item_s1]\<rparr>" "[item_w1]"]
  by (simp add: main_panel_def user_state_def initial_state_def item_w1_def item_s1_def)

end
